theory Spec2Isabelle
  imports Main "HOL-Library.Sublist"
begin

section \<open>Values shared by the whole program\<close>

text \<open>
  A Python exception caught by \<^verbatim>\<open>except Exception as e\<close> is represented by its message
  \<^verbatim>\<open>str(e)\<close>.  A call that may raise returns \<open>exn + 'a\<close>, with \<open>Inl\<close> for the raise; a
  call made only for its effect returns \<open>exn option\<close>, with \<open>None\<close> for a normal return.
\<close>

datatype exn = Exception string

fun str_exn :: "exn \<Rightarrow> string" where
  "str_exn (Exception m) = m"

type_synonym path = string

type_synonym text_result = "exn + string"

subsection \<open>Python string trimming\<close>

text \<open>
  \<^verbatim>\<open>str.strip()\<close> drops the leading and the trailing run of whitespace.  Text is modelled
  over the code points below 256 (the characters of HOL), where Python's whitespace is
  TAB..CR, FS..US, SPACE, NEL and NBSP.
\<close>

definition py_isspace :: "char \<Rightarrow> bool" where
  "py_isspace c = ((of_char c :: nat) \<in> {9, 10, 11, 12, 13, 28, 29, 30, 31, 32, 133, 160})"

definition strip :: "string \<Rightarrow> string" where
  "strip s = rev (dropWhile py_isspace (rev (dropWhile py_isspace s)))"

text \<open>Truthiness of a Python string: the empty string is false.\<close>

definition truthy :: "string \<Rightarrow> bool" where
  "truthy s = (s \<noteq> [])"

text \<open>\<^verbatim>\<open>a or b\<close> on strings.\<close>

definition str_or :: "string \<Rightarrow> string \<Rightarrow> string" where
  "str_or a b = (if truthy a then a else b)"

section \<open>The document engine, as the program sees it\<close>

text \<open>
  PyMuPDF and Tesseract are not part of the program.  Every call the program makes into
  them is a field of the page it is made on, holding what that call does in the run under
  consideration (at the run's resolution and language).

  \<^item> \<open>get_text\<close>: \<^verbatim>\<open>page.get_text("text")\<close>.
  \<^item> \<open>insert_pdf\<close>: \<^verbatim>\<open>new_doc.insert_pdf(src_doc, from_page=i, to_page=i)\<close>.
  \<^item> \<open>image_to_pdf\<close>: rendering the page and running Tesseract on the image; the PDF
    bytes it returns are given by the pages they hold ("usually one"), each by what
    \<^verbatim>\<open>get_text\<close> returns on it.
  \<^item> \<open>open_pdf\<close>: \<^verbatim>\<open>fitz.open("pdf", pdf_bytes)\<close>.
  \<^item> \<open>insert_ocr\<close>: \<^verbatim>\<open>new_doc.insert_pdf(temp_pdf)\<close>.
  \<^item> \<open>get_pixmap\<close>: \<^verbatim>\<open>page.get_pixmap(matrix=mat, alpha=False)\<close>.
  \<^item> \<open>new_page\<close>: \<^verbatim>\<open>new_doc.new_page(width=pix.width, height=pix.height)\<close>.
  \<^item> \<open>insert_image\<close>: reading the new page's rectangle, encoding the pixmap as PNG and the
    call of \<^verbatim>\<open>insert_image\<close> itself.
  \<^item> \<open>raster_text\<close>: \<^verbatim>\<open>get_text\<close> on the page made by \<open>new_page\<close> for this source page.
  \<^item> \<open>delete_page\<close>: \<^verbatim>\<open>new_doc.delete_page(-1)\<close> when it is called while this source page
    is being processed.
  \<^item> \<open>get_images\<close>: \<^verbatim>\<open>page.get_images(full=True)\<close>, each image with what extracting and
    writing it does.
\<close>

record image =
  extract_image :: "exn + string option"
  write_image :: "exn option"

record src_page =
  get_text :: text_result
  insert_pdf :: "exn option"
  image_to_pdf :: "exn + text_result list"
  open_pdf :: "exn option"
  insert_ocr :: "exn option"
  get_pixmap :: "exn option"
  new_page :: "exn option"
  insert_image :: "exn option"
  raster_text :: text_result
  delete_page :: "exn option"
  get_images :: "exn + image list"

text \<open>
  A metadata dictionary maps a key to a string or to \<^verbatim>\<open>None\<close>.  A source document is
  what \<^verbatim>\<open>fitz.open\<close> returns: loading page \<open>i\<close> with \<^verbatim>\<open>src_doc[i]\<close> may itself raise, and
  the property \<^verbatim>\<open>metadata\<close> is a dictionary or \<^verbatim>\<open>None\<close>.
\<close>

type_synonym metadata = "(string \<times> string option) list"

record src_doc =
  src_pages :: "(exn + src_page) list"
  doc_metadata :: "exn + metadata option"

text \<open>
  The document under construction.  A page of it remembers the source index it was made
  for, what it holds, and what \<^verbatim>\<open>get_text\<close> returns on it; a page copied with
  \<^verbatim>\<open>insert_pdf\<close> extracts as its source page does.
\<close>

datatype content = Verbatim | Searchable | Raster | Empty_page

record out_page =
  origin :: nat
  content :: content
  page_text :: text_result

record out_doc =
  out_pages :: "out_page list"
  out_metadata :: "(string \<times> string) list"

text \<open>\<^verbatim>\<open>fitz.open()\<close>: a new document, with no page and no metadata set.\<close>

definition empty_doc :: out_doc where
  "empty_doc = \<lparr>out_pages = [], out_metadata = []\<rparr>"

text \<open>
  \<^verbatim>\<open>new_doc[-1]\<close>.  On a document with no page the index is out of range and the engine
  raises.
\<close>

definition last_page :: "out_doc \<Rightarrow> exn + out_page" where
  "last_page new_doc =
     (if out_pages new_doc = [] then Inl (Exception ''page not in document'')
      else Inr (last (out_pages new_doc)))"

definition append_pages :: "out_doc \<Rightarrow> out_page list \<Rightarrow> out_doc" where
  "append_pages new_doc ps = new_doc\<lparr>out_pages := out_pages new_doc @ ps\<rparr>"

text \<open>
  What lies outside a page: the optional Tesseract binding (\<^verbatim>\<open>pytesseract is None\<close> when
  its import failed), the evaluation of the callee \<^verbatim>\<open>new_doc.insert_image\<close> (which Python
  evaluates before the arguments of the call), \<^verbatim>\<open>pathlib\<close>, the clock, the file system
  and the calls on whole documents.
\<close>

record world =
  pytesseract_available :: bool
  document_insert_image :: "exn option"
  path_exists :: "path \<Rightarrow> bool"
  path_stem :: "path \<Rightarrow> string"
  path_suffix :: "path \<Rightarrow> string"
  with_name :: "path \<Rightarrow> string \<Rightarrow> exn + path"
  with_suffix :: "path \<Rightarrow> string \<Rightarrow> exn + path"
  utc_timestamp :: string
  copy2 :: "exn option"
  fitz_open :: "path \<Rightarrow> exn + src_doc"
  save_resaved :: "exn option"
  mkdir_images :: "exn option"
  set_metadata :: "exn option"
  mkdir_parent :: "exn option"
  save_final :: "exn option"
  json_dump :: "exn option"

section \<open>The repair report\<close>

text \<open>
  The messages of the report are kept structured: each constructor stands for one
  f-string of the program, with the values it interpolates.  Page numbers are 1-based, as
  the program prints them.  The time stamps of the entries and the lines printed to the
  console are left out.
\<close>

type_synonym image_file = "path \<times> nat \<times> nat \<times> string"

datatype msg =
    Saved_report path
  | Backed_up path
  | Attempting_resave
  | Original_metadata "metadata option"
  | Saved_intermediate path
  | Extracting_images path
  | Extracted_image image_file
  | Total_images nat
  | Opening_source path
  | Source_has nat
  | Page_copied nat
  | Page_no_text nat
  | Page_ocr_applied nat int
  | Page_fallback_used nat
  | Page_image_inserted nat
  | Page_removed_blank nat
  | Copying_metadata metadata
  | Saved_final path
  | Proceeding_with_original
  | Resave_failed exn
  | Image_extraction_failed exn
  | Page_ocr_failed nat exn
  | Page_fallback_failed nat exn
  | Page_image_failed nat exn
  | Processing_failed nat exn
  | Metadata_failed exn
  | Failed_saving exn
  | Backup_failed exn
  | Overall_failed exn

text \<open>The dictionary \<^verbatim>\<open>page_info\<close>: a key that was never set is \<open>None\<close> (or \<open>False\<close>).\<close>

record page_info =
  page_index :: nat
  action :: "string option"
  text_chars :: "nat option"
  ocr :: "string option"
  fallback_image_inserted :: bool
  fallback_error :: "string option"
  image_inserted :: bool
  image_error :: "string option"
  removed_blank :: bool

definition new_page_info :: "nat \<Rightarrow> page_info" where
  "new_page_info i =
     \<lparr>page_index = i + 1, action = None, text_chars = None, ocr = None,
      fallback_image_inserted = False, fallback_error = None, image_inserted = False,
      image_error = None, removed_blank = False\<rparr>"

record page_entry =
  page_number :: nat
  entry :: page_info

record report =
  input_path :: path
  actions :: "msg list"
  errors :: "msg list"
  pages :: "page_entry list"

definition new_report :: "path \<Rightarrow> report" where
  "new_report inp = \<lparr>input_path = inp, actions = [], errors = [], pages = []\<rparr>"

definition add_action :: "msg \<Rightarrow> report \<Rightarrow> report" where
  "add_action m rep = rep\<lparr>actions := actions rep @ [m]\<rparr>"

definition add_error :: "msg \<Rightarrow> report \<Rightarrow> report" where
  "add_error m rep = rep\<lparr>errors := errors rep @ [m]\<rparr>"

definition add_page_entry :: "nat \<Rightarrow> page_info \<Rightarrow> report \<Rightarrow> report" where
  "add_page_entry page_num e rep = rep\<lparr>pages := pages rep @ [\<lparr>page_number = page_num, entry = e\<rparr>]\<rparr>"

text \<open>
  \<^verbatim>\<open>RepairReport.save\<close>: the dump and the action that follows it stand in one \<^verbatim>\<open>try\<close>
  whose handler only prints.  The result is the exception that leaves the method (if
  any), the report afterwards and the data written to the file (if the dump returned).
\<close>

definition save :: "world \<Rightarrow> path \<Rightarrow> report \<Rightarrow> exn option \<times> report \<times> report option" where
  "save w p rep =
     (case json_dump w of
        Some e \<Rightarrow> (None, rep, None)
      | None \<Rightarrow> (None, add_action (Saved_report p) rep, Some rep))"

section \<open>The page classifier\<close>

text \<open>
  \<^verbatim>\<open>
  def page_has_text(page):
      try:
          txt = page.get_text("text")
          if txt and txt.strip():
              return True
          return False
      except Exception:
          return False
  \<close>
\<close>

definition page_has_text :: "src_page \<Rightarrow> bool" where
  "page_has_text page =
     (case get_text page of
        Inr txt \<Rightarrow> if truthy txt \<and> truthy (strip txt) then True else False
      | Inl e \<Rightarrow> False)"

section \<open>The fallback chain\<close>

text \<open>
  \<^verbatim>\<open>ocr_page_to_pdf_bytes\<close> raises at once when the Tesseract binding is missing;
  everything after that test happens inside the engine.
\<close>

definition ocr_page_to_pdf_bytes :: "world \<Rightarrow> src_page \<Rightarrow> exn + text_result list" where
  "ocr_page_to_pdf_bytes w page =
     (if \<not> pytesseract_available w
      then Inl (Exception ''pytesseract not available for OCR fallback'')
      else image_to_pdf page)"

text \<open>
  The steps below work on the document under construction, the dictionary \<open>page_info\<close>
  and the report, and return them as they stand when the step ends; the first component
  is the exception that leaves the step, \<open>None\<close> when it ends normally.
\<close>

type_synonym page_state = "exn option \<times> out_doc \<times> page_info \<times> report"

text \<open>
  The fallback after a failed OCR (the inner \<^verbatim>\<open>try\<close> of the OCR handler).  The statement
  \<^verbatim>\<open>new_doc.insert_image(new_doc.new_page(...).rect, stream=pix.tobytes("png"))\<close> evaluates
  the callee, then creates the page, then runs the rest; the page stays in the document
  when a later part raises.
\<close>

definition fallback_failed :: "nat \<Rightarrow> exn \<Rightarrow> out_doc \<Rightarrow> page_info \<Rightarrow> report \<Rightarrow> page_state" where
  "fallback_failed i e2 new_doc page_info rep =
     (None, new_doc, page_info\<lparr>fallback_error := Some (str_exn e2)\<rparr>,
      add_error (Page_fallback_failed (i + 1) e2) rep)"

definition fallback_image :: "world \<Rightarrow> nat \<Rightarrow> src_page \<Rightarrow> out_doc \<Rightarrow> page_info \<Rightarrow> report \<Rightarrow> page_state" where
  "fallback_image w i page new_doc page_info rep =
     (case get_pixmap page of
        Some e2 \<Rightarrow> fallback_failed i e2 new_doc page_info rep
      | None \<Rightarrow>
     (case document_insert_image w of
        Some e2 \<Rightarrow> fallback_failed i e2 new_doc page_info rep
      | None \<Rightarrow>
     (case new_page page of
        Some e2 \<Rightarrow> fallback_failed i e2 new_doc page_info rep
      | None \<Rightarrow>
     (case insert_image page of
        Some e2 \<Rightarrow>
          fallback_failed i e2
            (append_pages new_doc [\<lparr>origin = i, content = Empty_page, page_text = raster_text page\<rparr>])
            page_info rep
      | None \<Rightarrow>
          (None,
           append_pages new_doc [\<lparr>origin = i, content = Raster, page_text = raster_text page\<rparr>],
           page_info\<lparr>fallback_image_inserted := True\<rparr>,
           add_action (Page_fallback_used (i + 1)) rep)))))"

text \<open>The handler of the OCR \<^verbatim>\<open>try\<close>.\<close>

definition ocr_failed :: "world \<Rightarrow> nat \<Rightarrow> src_page \<Rightarrow> exn \<Rightarrow> out_doc \<Rightarrow> page_info \<Rightarrow> report \<Rightarrow> page_state" where
  "ocr_failed w i page e new_doc page_info rep =
     fallback_image w i page new_doc
       (page_info\<lparr>ocr := Some (''failed: '' @ str_exn e)\<rparr>)
       (add_error (Page_ocr_failed (i + 1) e) rep)"

text \<open>The branch \<^verbatim>\<open>if use_ocr:\<close> of a page without text.\<close>

definition ocr_page :: "world \<Rightarrow> int \<Rightarrow> nat \<Rightarrow> src_page \<Rightarrow> out_doc \<Rightarrow> page_info \<Rightarrow> report \<Rightarrow> page_state" where
  "ocr_page w dpi i page new_doc page_info rep =
     (case ocr_page_to_pdf_bytes w page of
        Inl e \<Rightarrow> ocr_failed w i page e new_doc page_info rep
      | Inr pdf_bytes \<Rightarrow>
     (case open_pdf page of
        Some e \<Rightarrow> ocr_failed w i page e new_doc page_info rep
      | None \<Rightarrow>
     (case insert_ocr page of
        Some e \<Rightarrow> ocr_failed w i page e new_doc page_info rep
      | None \<Rightarrow>
          (None,
           append_pages new_doc
             (map (\<lambda>t. \<lparr>origin = i, content = Searchable, page_text = t\<rparr>) pdf_bytes),
           page_info\<lparr>ocr := Some ''applied''\<rparr>,
           add_action (Page_ocr_applied (i + 1) dpi) rep))))"

text \<open>The branch without OCR: the page is inserted as an image.\<close>

definition image_failed :: "nat \<Rightarrow> exn \<Rightarrow> out_doc \<Rightarrow> page_info \<Rightarrow> report \<Rightarrow> page_state" where
  "image_failed i e new_doc page_info rep =
     (None, new_doc, page_info\<lparr>image_error := Some (str_exn e)\<rparr>,
      add_error (Page_image_failed (i + 1) e) rep)"

definition image_page :: "nat \<Rightarrow> src_page \<Rightarrow> out_doc \<Rightarrow> page_info \<Rightarrow> report \<Rightarrow> page_state" where
  "image_page i page new_doc page_info rep =
     (case get_pixmap page of
        Some e \<Rightarrow> image_failed i e new_doc page_info rep
      | None \<Rightarrow>
     (case new_page page of
        Some e \<Rightarrow> image_failed i e new_doc page_info rep
      | None \<Rightarrow>
     (case insert_image page of
        Some e \<Rightarrow>
          image_failed i e
            (append_pages new_doc [\<lparr>origin = i, content = Empty_page, page_text = raster_text page\<rparr>])
            page_info rep
      | None \<Rightarrow>
          (None,
           append_pages new_doc [\<lparr>origin = i, content = Raster, page_text = raster_text page\<rparr>],
           page_info\<lparr>image_inserted := True\<rparr>,
           add_action (Page_image_inserted (i + 1)) rep))))"

text \<open>The branch \<^verbatim>\<open>else:\<close> of the classification: a page without text.\<close>

definition no_text_page :: "world \<Rightarrow> bool \<Rightarrow> int \<Rightarrow> nat \<Rightarrow> src_page \<Rightarrow> out_doc \<Rightarrow> page_info \<Rightarrow> report \<Rightarrow> page_state" where
  "no_text_page w use_ocr dpi i page new_doc page_info rep =
     (let page_info1 = page_info\<lparr>action := Some ''no_text''\<rparr>;
          rep1 = add_action (Page_no_text (i + 1)) rep
      in if use_ocr then ocr_page w dpi i page new_doc page_info1 rep1
         else image_page i page new_doc page_info1 rep1)"

section \<open>Copying a page that has text\<close>

text \<open>
  The branch \<^verbatim>\<open>if text_ok:\<close>.  The character count is
  \<^verbatim>\<open>len(page.get_text("text") or "")\<close>, from a second extraction of the page's text.
\<close>

definition copy_page :: "nat \<Rightarrow> src_page \<Rightarrow> out_doc \<Rightarrow> page_info \<Rightarrow> report \<Rightarrow> page_state" where
  "copy_page i page new_doc page_info rep =
     (case insert_pdf page of
        Some e \<Rightarrow> (Some e, new_doc, page_info, rep)
      | None \<Rightarrow>
     (let new_doc1 = append_pages new_doc [\<lparr>origin = i, content = Verbatim, page_text = get_text page\<rparr>];
          page_info1 = page_info\<lparr>action := Some ''copied''\<rparr>
      in case get_text page of
           Inl e \<Rightarrow> (Some e, new_doc1, page_info1, rep)
         | Inr txt \<Rightarrow>
             (None, new_doc1, page_info1\<lparr>text_chars := Some (length (str_or txt ''''))\<rparr>,
              add_action (Page_copied (i + 1)) rep)))"

section \<open>Pruning blank pages\<close>

text \<open>
  The block \<^verbatim>\<open>if remove_blank:\<close>.  The page is loaded with \<^verbatim>\<open>new_doc[-1]\<close> outside the
  inner \<^verbatim>\<open>try\<close>; the extraction and the deletion stand inside it, and its handler keeps
  the page.
\<close>

definition prune_blank :: "bool \<Rightarrow> nat \<Rightarrow> src_page \<Rightarrow> out_doc \<Rightarrow> page_info \<Rightarrow> report \<Rightarrow> page_state" where
  "prune_blank remove_blank i page new_doc page_info rep =
     (if remove_blank then
        (case last_page new_doc of
           Inl e \<Rightarrow> (Some e, new_doc, page_info, rep)
         | Inr lp \<Rightarrow>
        (case page_text lp of
           Inl e \<Rightarrow> (None, new_doc, page_info, rep)
         | Inr t \<Rightarrow>
             if \<not> truthy (strip (str_or t '''')) then
               (case delete_page page of
                  Some e \<Rightarrow> (None, new_doc, page_info, rep)
                | None \<Rightarrow>
                    (None, new_doc\<lparr>out_pages := butlast (out_pages new_doc)\<rparr>,
                     page_info\<lparr>removed_blank := True\<rparr>,
                     add_action (Page_removed_blank (i + 1)) rep))
             else (None, new_doc, page_info, rep)))
      else (None, new_doc, page_info, rep))"

section \<open>The per-page loop\<close>

text \<open>The classification and the branch it selects (the body up to the pruning).\<close>

definition rebuild_page :: "world \<Rightarrow> bool \<Rightarrow> int \<Rightarrow> nat \<Rightarrow> src_page \<Rightarrow> out_doc \<Rightarrow> report \<Rightarrow> page_state" where
  "rebuild_page w use_ocr dpi i page new_doc rep =
     (let page_info = new_page_info i;
          text_ok = page_has_text page
      in if text_ok then copy_page i page new_doc page_info rep
         else no_text_page w use_ocr dpi i page new_doc page_info rep)"

text \<open>The body of the outer \<^verbatim>\<open>try\<close> for source index \<open>i\<close>.\<close>

definition process_page :: "world \<Rightarrow> bool \<Rightarrow> int \<Rightarrow> bool \<Rightarrow> src_doc \<Rightarrow> nat \<Rightarrow> out_doc \<Rightarrow> report \<Rightarrow> exn option \<times> out_doc \<times> report" where
  "process_page w use_ocr dpi remove_blank sdoc i new_doc rep =
     (case src_pages sdoc ! i of
        Inl e \<Rightarrow> (Some e, new_doc, rep)
      | Inr page \<Rightarrow>
     (case rebuild_page w use_ocr dpi i page new_doc rep of
        (Some e, new_doc1, page_info1, rep1) \<Rightarrow> (Some e, new_doc1, rep1)
      | (None, new_doc1, page_info1, rep1) \<Rightarrow>
     (case prune_blank remove_blank i page new_doc1 page_info1 rep1 of
        (Some e, new_doc2, page_info2, rep2) \<Rightarrow> (Some e, new_doc2, rep2)
      | (None, new_doc2, page_info2, rep2) \<Rightarrow>
          (None, new_doc2, add_page_entry (i + 1) page_info2 rep2))))"

text \<open>One iteration: the body and the handler of the outer \<^verbatim>\<open>try\<close>.\<close>

definition page_step :: "world \<Rightarrow> bool \<Rightarrow> int \<Rightarrow> bool \<Rightarrow> src_doc \<Rightarrow> out_doc \<times> report \<Rightarrow> nat \<Rightarrow> out_doc \<times> report" where
  "page_step w use_ocr dpi remove_blank sdoc st i =
     (case process_page w use_ocr dpi remove_blank sdoc i (fst st) (snd st) of
        (Some e, new_doc1, rep1) \<Rightarrow> (new_doc1, add_error (Processing_failed (i + 1) e) rep1)
      | (None, new_doc1, rep1) \<Rightarrow> (new_doc1, rep1))"

text \<open>\<^verbatim>\<open>for i in range(len(src_doc))\<close>.\<close>

definition page_loop :: "world \<Rightarrow> bool \<Rightarrow> int \<Rightarrow> bool \<Rightarrow> src_doc \<Rightarrow> out_doc \<times> report \<Rightarrow> out_doc \<times> report" where
  "page_loop w use_ocr dpi remove_blank sdoc st =
     foldl (page_step w use_ocr dpi remove_blank sdoc) st [0 ..< length (src_pages sdoc)]"

section \<open>Metadata\<close>

text \<open>\<^verbatim>\<open>meta.get(k)\<close>: \<^verbatim>\<open>None\<close> for a missing key.\<close>

definition dict_get :: "metadata \<Rightarrow> string \<Rightarrow> string option" where
  "dict_get meta k = (case map_of meta k of None \<Rightarrow> None | Some v \<Rightarrow> v)"

text \<open>\<^verbatim>\<open>x or d\<close>, where \<^verbatim>\<open>x\<close> is a string or \<^verbatim>\<open>None\<close>.\<close>

definition opt_or :: "string option \<Rightarrow> string \<Rightarrow> string" where
  "opt_or x d = (case x of None \<Rightarrow> d | Some s \<Rightarrow> str_or s d)"

text \<open>The dictionary \<^verbatim>\<open>meta_fixed\<close>, for the stem of the input path.\<close>

definition meta_fixed :: "string \<Rightarrow> metadata \<Rightarrow> (string \<times> string) list" where
  "meta_fixed stem meta =
     [(''title'', opt_or (dict_get meta ''title'') (stem @ '' (repaired)'')),
      (''author'', opt_or (dict_get meta ''author'') ''RepairedByScript''),
      (''subject'', opt_or (dict_get meta ''subject'') ''''),
      (''keywords'', opt_or (dict_get meta ''keywords'') ''''),
      (''creator'', opt_or (dict_get meta ''creator'') (opt_or (dict_get meta ''producer'') ''pdf_repair.py'')),
      (''producer'', opt_or (dict_get meta ''producer'') (opt_or (dict_get meta ''creator'') ''''))]"

text \<open>
  The metadata \<^verbatim>\<open>try\<close> of \<^verbatim>\<open>build_repaired_pdf\<close>: any exception is recorded and the
  document keeps the metadata it had.
\<close>

definition merge_metadata :: "world \<Rightarrow> path \<Rightarrow> src_doc \<Rightarrow> out_doc \<Rightarrow> report \<Rightarrow> out_doc \<times> report" where
  "merge_metadata w input_pdf_path sdoc new_doc rep =
     (case doc_metadata sdoc of
        Inl e \<Rightarrow> (new_doc, add_error (Metadata_failed e) rep)
      | Inr m \<Rightarrow>
     (let meta = (case m of None \<Rightarrow> [] | Some d \<Rightarrow> d);
          rep1 = add_action (Copying_metadata meta) rep
      in case set_metadata w of
           Some e \<Rightarrow> (new_doc, add_error (Metadata_failed e) rep1)
         | None \<Rightarrow>
             (new_doc\<lparr>out_metadata := meta_fixed (path_stem w input_pdf_path) meta\<rparr>, rep1)))"

section \<open>Extracting embedded images\<close>

text \<open>
  The state of the two nested loops of \<^verbatim>\<open>extract_images_from_doc\<close>: the files saved so
  far, the running image index and the report.  A file name is given by the directory, the
  page number, the image index and the extension.
\<close>

type_synonym extract_state = "image_file list \<times> nat \<times> report"

fun save_images :: "path \<Rightarrow> nat \<Rightarrow> image list \<Rightarrow> extract_state \<Rightarrow> exn option \<times> extract_state" where
  "save_images out_dir i [] st = (None, st)"
| "save_images out_dir i (img # imgs) (saved, img_index, rep) =
     (case extract_image img of
        Inl e \<Rightarrow> (Some e, saved, img_index, rep)
      | Inr ext_opt \<Rightarrow>
     (let ext = (case ext_opt of None \<Rightarrow> ''png'' | Some x \<Rightarrow> x);
          fname = (out_dir, i + 1, img_index, ext)
      in case write_image img of
           Some e \<Rightarrow> (Some e, saved, img_index, rep)
         | None \<Rightarrow>
             save_images out_dir i imgs
               (saved @ [fname], img_index + 1, add_action (Extracted_image fname) rep)))"

fun extract_pages :: "path \<Rightarrow> nat \<Rightarrow> (exn + src_page) list \<Rightarrow> extract_state \<Rightarrow> exn option \<times> extract_state" where
  "extract_pages out_dir i [] st = (None, st)"
| "extract_pages out_dir i (p # ps) st =
     (case p of
        Inl e \<Rightarrow> (Some e, st)
      | Inr page \<Rightarrow>
     (case get_images page of
        Inl e \<Rightarrow> (Some e, st)
      | Inr image_list \<Rightarrow>
     (case save_images out_dir i image_list st of
        (Some e, st1) \<Rightarrow> (Some e, st1)
      | (None, st1) \<Rightarrow> extract_pages out_dir (i + 1) ps st1)))"

definition extract_images_from_doc :: "world \<Rightarrow> src_doc \<Rightarrow> path \<Rightarrow> report \<Rightarrow> (exn + image_file list) \<times> report" where
  "extract_images_from_doc w doc out_dir rep =
     (case mkdir_images w of
        Some e \<Rightarrow> (Inl e, rep)
      | None \<Rightarrow>
     (case extract_pages out_dir 0 (src_pages doc) ([], 0, add_action (Extracting_images out_dir) rep) of
        (Some e, saved, img_index, rep1) \<Rightarrow> (Inl e, rep1)
      | (None, saved, img_index, rep1) \<Rightarrow>
          (Inr saved, add_action (Total_images (length saved)) rep1)))"

section \<open>Building the repaired document\<close>

text \<open>
  The last \<^verbatim>\<open>try\<close> of \<^verbatim>\<open>build_repaired_pdf\<close>: the handler records the error and raises it
  again.  The third component is the document written to the output path, if the save
  returned.  Closing the two documents in the \<^verbatim>\<open>finally\<close> block is taken to succeed.
\<close>

definition save_final_doc :: "world \<Rightarrow> path \<Rightarrow> out_doc \<Rightarrow> report \<Rightarrow> exn option \<times> report \<times> out_doc option" where
  "save_final_doc w output_pdf_path new_doc rep =
     (case mkdir_parent w of
        Some e \<Rightarrow> (Some e, add_error (Failed_saving e) rep, None)
      | None \<Rightarrow>
     (case save_final w of
        Some e \<Rightarrow> (Some e, add_error (Failed_saving e) rep, None)
      | None \<Rightarrow> (None, add_action (Saved_final output_pdf_path) rep, Some new_doc)))"

definition build_repaired_pdf ::
  "world \<Rightarrow> path \<Rightarrow> path \<Rightarrow> bool \<Rightarrow> int \<Rightarrow> bool \<Rightarrow> path \<Rightarrow> bool \<Rightarrow> string \<Rightarrow> report
     \<Rightarrow> exn option \<times> report \<times> out_doc option" where
  "build_repaired_pdf w input_pdf_path output_pdf_path use_ocr dpi extract_images out_images_dir
       remove_blank ocr_lang rep =
     (let rep1 = add_action (Opening_source input_pdf_path) rep
      in case fitz_open w input_pdf_path of
           Inl e \<Rightarrow> (Some e, rep1, None)
         | Inr sdoc \<Rightarrow>
     (let rep2 = add_action (Source_has (length (src_pages sdoc))) rep1;
          rep3 = (if extract_images then
                    (case extract_images_from_doc w sdoc out_images_dir rep2 of
                       (Inl e, r) \<Rightarrow> add_error (Image_extraction_failed e) r
                     | (Inr saved, r) \<Rightarrow> r)
                  else rep2);
          st = page_loop w use_ocr dpi remove_blank sdoc (empty_doc, rep3);
          md = merge_metadata w input_pdf_path sdoc (fst st) (snd st)
      in save_final_doc w output_pdf_path (fst md) (snd md)))"

section \<open>The command line program\<close>

text \<open>
  \<^verbatim>\<open>backup_file\<close> and \<^verbatim>\<open>try_simple_repair\<close> return a path or raise; the report is returned as
  it stands in either case.
\<close>

definition backup_file :: "world \<Rightarrow> path \<Rightarrow> report \<Rightarrow> (exn + path) \<times> report" where
  "backup_file w src rep =
     (case with_name w src (path_stem w src @ ''.backup.'' @ utc_timestamp w @ path_suffix w src) of
        Inl e \<Rightarrow> (Inl e, rep)
      | Inr dst \<Rightarrow>
     (case copy2 w of
        Some e \<Rightarrow> (Inl e, rep)
      | None \<Rightarrow> (Inr dst, add_action (Backed_up dst) rep)))"

definition try_simple_repair :: "world \<Rightarrow> path \<Rightarrow> report \<Rightarrow> (exn + path) \<times> report" where
  "try_simple_repair w inp rep =
     (let rep1 = add_action Attempting_resave rep
      in case with_name w inp (path_stem w inp @ ''.resaved'' @ path_suffix w inp) of
           Inl e \<Rightarrow> (Inl e, rep1)
         | Inr repaired \<Rightarrow>
     (case fitz_open w inp of
        Inl e \<Rightarrow> (Inl e, add_error (Resave_failed e) rep1)
      | Inr doc \<Rightarrow>
     (case doc_metadata doc of
        Inl e \<Rightarrow> (Inl e, add_error (Resave_failed e) rep1)
      | Inr meta \<Rightarrow>
     (let rep2 = add_action (Original_metadata meta) rep1
      in case save_resaved w of
           Some e \<Rightarrow> (Inl e, add_error (Resave_failed e) rep2)
         | None \<Rightarrow> (Inr repaired, add_action (Saved_intermediate repaired) rep2)))))"

text \<open>The parsed arguments; an option that was not given is \<open>None\<close>.\<close>

record args =
  arg_input :: path
  arg_output :: "path option"
  arg_ocr :: bool
  arg_dpi :: int
  arg_extract_images :: "path option"
  arg_remove_blank :: bool
  arg_ocr_lang :: string
  arg_report :: "path option"

text \<open>
  How a run ends: \<^verbatim>\<open>sys.exit(2)\<close> when the input is missing, an exception nothing
  catches, or the return from \<^verbatim>\<open>main\<close>.  A run that returns has the report as it stands
  there, the data written to the report file and the document written to the output path.
\<close>

datatype exit_status = Exit_2 | Uncaught exn | Returned

record run =
  status :: exit_status
  final_report :: "report option"
  report_file :: "report option"
  output_file :: "out_doc option"

definition aborted :: "exit_status \<Rightarrow> run" where
  "aborted s = \<lparr>status = s, final_report = None, report_file = None, output_file = None\<rparr>"

text \<open>\<^verbatim>\<open>Path(x) if x else d\<close>, where computing \<^verbatim>\<open>d\<close> may raise.\<close>

definition path_or :: "path option \<Rightarrow> (exn + path) \<Rightarrow> exn + path" where
  "path_or x d = (case x of None \<Rightarrow> d | Some p \<Rightarrow> if truthy p then Inr p else d)"

text \<open>The backup \<^verbatim>\<open>try\<close> of \<^verbatim>\<open>main\<close>: the report after it.\<close>

definition backup_stage :: "world \<Rightarrow> path \<Rightarrow> report \<Rightarrow> report" where
  "backup_stage w inp rep =
     (case backup_file w inp rep of
        (Inl e, r) \<Rightarrow> add_error (Backup_failed e) r
      | (Inr dst, r) \<Rightarrow> r)"

text \<open>The resave \<^verbatim>\<open>try\<close> of \<^verbatim>\<open>main\<close>: the working input and the report after it.\<close>

definition resave_stage :: "world \<Rightarrow> path \<Rightarrow> report \<Rightarrow> path \<times> report" where
  "resave_stage w inp rep =
     (case try_simple_repair w inp rep of
        (Inr intermediate, r) \<Rightarrow> (intermediate, r)
      | (Inl e, r) \<Rightarrow> (inp, add_action Proceeding_with_original r))"

text \<open>
  The build \<^verbatim>\<open>try\<close> of \<^verbatim>\<open>main\<close>: the report after it and the document written to the
  output path.
\<close>

definition build_stage :: "world \<Rightarrow> args \<Rightarrow> path \<Rightarrow> path \<Rightarrow> report \<Rightarrow> report \<times> out_doc option" where
  "build_stage w a working_input out rep =
     (let out_images_dir = (case arg_extract_images a of
                              None \<Rightarrow> None
                            | Some d \<Rightarrow> if truthy d then Some d else None)
      in case build_repaired_pdf w working_input out (arg_ocr a) (arg_dpi a)
                (out_images_dir \<noteq> None)
                (case out_images_dir of None \<Rightarrow> ''.'' | Some d \<Rightarrow> d)
                (arg_remove_blank a) (arg_ocr_lang a) rep of
           (Some e, r, f) \<Rightarrow> (add_error (Overall_failed e) r, f)
         | (None, r, f) \<Rightarrow> (r, f))"

text \<open>
  \<^verbatim>\<open>main\<close> from the backup on, with the output and the report path computed.  The call of
  \<^verbatim>\<open>report.save\<close> stands in a \<^verbatim>\<open>try\<close> of its own, whose handler prints.
\<close>

definition repair :: "world \<Rightarrow> args \<Rightarrow> path \<Rightarrow> path \<Rightarrow> path \<Rightarrow> run" where
  "repair w a inp out report_path =
     (let rep1 = backup_stage w inp (new_report inp);
          ws = resave_stage w inp rep1;
          built = build_stage w a (fst ws) out (snd ws);
          saved = save w report_path (fst built)
      in \<lparr>status = Returned, final_report = Some (fst (snd saved)),
          report_file = snd (snd saved), output_file = snd built\<rparr>)"

definition main :: "world \<Rightarrow> args \<Rightarrow> run" where
  "main w a =
     (let inp = arg_input a
      in if \<not> path_exists w inp then aborted Exit_2
         else
           (case path_or (arg_output a)
                   (with_name w inp (path_stem w inp @ ''.repaired'' @ path_suffix w inp)) of
              Inl e \<Rightarrow> aborted (Uncaught e)
            | Inr out \<Rightarrow>
           (case path_or (arg_report a) (with_suffix w inp ''.repair_report.json'') of
              Inl e \<Rightarrow> aborted (Uncaught e)
            | Inr report_path \<Rightarrow> repair w a inp out report_path)))"

section \<open>Notions used to state the properties\<close>

subsection \<open>Counting the pages that were given up\<close>

text \<open>
  The errors the handler of the outer \<^verbatim>\<open>try\<close> records ("Processing page N failed"), and
  the number of source pages a report accounts for: those with an entry and those given up.
\<close>

fun is_processing_failed :: "msg \<Rightarrow> bool" where
  "is_processing_failed (Processing_failed n e) = True"
| "is_processing_failed m = False"

definition processing_failures :: "report \<Rightarrow> nat" where
  "processing_failures rep = length (filter is_processing_failed (errors rep))"

definition tally :: "report \<Rightarrow> nat" where
  "tally rep = length (pages rep) + processing_failures rep"

subsection \<open>A report only grows\<close>

definition extends :: "report \<Rightarrow> report \<Rightarrow> bool" where
  "extends r r' \<longleftrightarrow>
     input_path r' = input_path r \<and> prefix (actions r) (actions r') \<and>
     prefix (errors r) (errors r') \<and> prefix (pages r) (pages r')"

subsection \<open>Metadata resolution, as the specification words it\<close>





subsection \<open>Whether the image fallback fails\<close>



subsection \<open>Sample inputs\<close>

text \<open>
  A page with the text \<open>t\<close> on which every engine call succeeds; a scanned page (no text
  layer) whose OCR reads \<open>t\<close>; a scanned page on which both OCR and rendering fail; a
  scanned page whose OCR returns a PDF of two blank pages.
\<close>

definition text_page :: "string \<Rightarrow> src_page" where
  "text_page t =
     \<lparr>get_text = Inr t, insert_pdf = None, image_to_pdf = Inr [Inr t], open_pdf = None,
      insert_ocr = None, get_pixmap = None, new_page = None, insert_image = None,
      raster_text = Inr '''', delete_page = None, get_images = Inr []\<rparr>"

definition scanned_page :: "string \<Rightarrow> src_page" where
  "scanned_page t = (text_page t)\<lparr>get_text := Inr ''''\<rparr>"

definition failing_scan :: src_page where
  "failing_scan =
     (scanned_page '''')\<lparr>image_to_pdf := Inl (Exception ''tesseract failed''),
                          get_pixmap := Some (Exception ''cannot render'')\<rparr>"

definition two_blank_scan :: src_page where
  "two_blank_scan = (scanned_page '''')\<lparr>image_to_pdf := Inr [Inr '''', Inr '''']\<rparr>"

definition doc_of :: "src_page list \<Rightarrow> src_doc" where
  "doc_of ps = \<lparr>src_pages = map Inr ps, doc_metadata = Inr None\<rparr>"

text \<open>A world in which every path opens as \<open>sdoc\<close> and nothing outside the pages fails.\<close>

definition sample_world :: "src_doc \<Rightarrow> world" where
  "sample_world sdoc =
     \<lparr>pytesseract_available = True, document_insert_image = None,
      path_exists = (\<lambda>p. True), path_stem = (\<lambda>p. ''in''), path_suffix = (\<lambda>p. ''.pdf''),
      with_name = (\<lambda>p n. Inr n), with_suffix = (\<lambda>p s. Inr (''in'' @ s)),
      utc_timestamp = ''20240101000000'', copy2 = None, fitz_open = (\<lambda>p. Inr sdoc),
      save_resaved = None, mkdir_images = None, set_metadata = None, mkdir_parent = None,
      save_final = None, json_dump = None\<rparr>"

definition sample_args :: args where
  "sample_args =
     \<lparr>arg_input = ''in.pdf'', arg_output = None, arg_ocr = True, arg_dpi = 300,
      arg_extract_images = None, arg_remove_blank = False, arg_ocr_lang = ''eng'',
      arg_report = None\<rparr>"

section \<open>Auxiliary facts\<close>

subsection \<open>Strings and documents\<close>

lemma strip_Nil [simp]: "strip [] = []"
  by (simp add: strip_def)

lemma strip_Nil_iff: "strip s = [] \<longleftrightarrow> (\<forall>c \<in> set s. py_isspace c)"
  unfolding strip_def
  by (metis dropWhile_eq_Nil_conv rev_is_Nil_conv set_rev dropWhile_append3 dropWhile_idem
      set_dropWhileD)

lemma str_or_empty [simp]: "str_or t [] = t"
  by (simp add: str_or_def truthy_def)

lemma last_page_append [simp]: "last_page (append_pages d [p]) = Inr p"
  by (simp add: last_page_def append_pages_def)

lemma page_has_text_Inr:
  "page_has_text page \<longleftrightarrow> (\<exists>t. get_text page = Inr t \<and> strip t \<noteq> [])"
  by (cases "get_text page") (auto simp: page_has_text_def truthy_def)

lemmas page_defs = page_step_def process_page_def rebuild_page_def copy_page_def
  no_text_page_def ocr_page_def ocr_failed_def ocr_page_to_pdf_bytes_def fallback_image_def
  fallback_failed_def image_page_def image_failed_def prune_blank_def append_pages_def
  last_page_def empty_doc_def new_report_def add_action_def add_error_def add_page_entry_def
  new_page_info_def page_has_text_def truthy_def str_or_def strip_def py_isspace_def
  page_loop_def Let_def

lemmas sample_defs = text_page_def scanned_page_def failing_scan_def two_blank_scan_def
  doc_of_def sample_world_def sample_args_def


subsection \<open>What one iteration does to the report's page entries\<close>

lemma rebuild_page_entries:
  assumes "rebuild_page w use_ocr dpi i page new_doc rep = (x, new_doc1, page_info1, rep1)"
  shows "pages rep1 = pages rep \<and> processing_failures rep1 = processing_failures rep"
  using assms
  by (auto simp: rebuild_page_def copy_page_def no_text_page_def ocr_page_def ocr_failed_def
      fallback_image_def fallback_failed_def image_page_def image_failed_def
      processing_failures_def add_error_def add_action_def Let_def
      split: if_splits option.splits sum.splits)

lemma prune_blank_entries:
  assumes "prune_blank remove_blank i page new_doc page_info rep = (x, new_doc1, page_info1, rep1)"
  shows "pages rep1 = pages rep \<and> processing_failures rep1 = processing_failures rep"
  using assms
  by (auto simp: prune_blank_def processing_failures_def add_action_def
      split: if_splits option.splits sum.splits)

lemma page_step_entries:
  "length (pages (snd (page_step w use_ocr dpi remove_blank sdoc st i))) +
     processing_failures (snd (page_step w use_ocr dpi remove_blank sdoc st i)) =
   Suc (length (pages (snd st)) + processing_failures (snd st))"
proof (cases "src_pages sdoc ! i")
  case (Inl e)
  then show ?thesis
    by (cases st) (simp add: page_step_def process_page_def processing_failures_def add_error_def)
next
  case (Inr page)
  obtain x d1 info1 r1 where
    rb: "rebuild_page w use_ocr dpi i page (fst st) (snd st) = (x, d1, info1, r1)"
    by (metis prod_cases4)
  obtain y d2 info2 r2 where
    pb: "prune_blank remove_blank i page d1 info1 r1 = (y, d2, info2, r2)"
    by (metis prod_cases4)
  from rebuild_page_entries [OF rb] prune_blank_entries [OF pb]
  show ?thesis
    using Inr rb pb
    by (cases st; cases x; cases y)
      (simp_all add: page_step_def process_page_def processing_failures_def add_error_def
        add_page_entry_def)
qed

lemma foldl_page_step_entries:
  "length (pages (snd (foldl (page_step w use_ocr dpi remove_blank sdoc) st is))) +
     processing_failures (snd (foldl (page_step w use_ocr dpi remove_blank sdoc) st is)) =
   length (pages (snd st)) + processing_failures (snd st) + length is"
  by (induction "is" arbitrary: st) (simp_all add: page_step_entries)



subsection \<open>What one iteration does to the output pages\<close>

lemma rebuild_page_appends:
  assumes "rebuild_page w use_ocr dpi i page new_doc rep = (x, new_doc1, page_info1, rep1)"
  shows "\<exists>ps. out_pages new_doc1 = out_pages new_doc @ ps \<and> (\<forall>p \<in> set ps. origin p = i)"
  using assms
  by (auto simp: rebuild_page_def copy_page_def no_text_page_def ocr_page_def ocr_failed_def
      fallback_image_def fallback_failed_def image_page_def image_failed_def
      append_pages_def Let_def
      split: if_splits option.splits sum.splits)

lemma prune_blank_last:
  assumes "prune_blank remove_blank i page new_doc page_info rep = (x, new_doc1, page_info1, rep1)"
  shows "out_pages new_doc1 = out_pages new_doc \<or> out_pages new_doc1 = butlast (out_pages new_doc)"
  using assms
  by (auto simp: prune_blank_def split: if_splits option.splits sum.splits)

lemma prune_blank_depends_on_last:
  assumes "last_page new_doc = last_page new_doc'"
  shows "fst (prune_blank remove_blank i page new_doc page_info rep) =
           fst (prune_blank remove_blank i page new_doc' page_info rep) \<and>
         snd (snd (prune_blank remove_blank i page new_doc page_info rep)) =
           snd (snd (prune_blank remove_blank i page new_doc' page_info rep))"
  using assms
  by (simp add: prune_blank_def split: option.splits sum.splits)

lemma page_step_pages:
  "\<exists>ps. (\<forall>p \<in> set ps. origin p = i) \<and>
     (out_pages (fst (page_step w use_ocr dpi remove_blank sdoc st i)) = out_pages (fst st) @ ps \<or>
      out_pages (fst (page_step w use_ocr dpi remove_blank sdoc st i)) =
        butlast (out_pages (fst st) @ ps))"
proof (cases "src_pages sdoc ! i")
  case (Inl e)
  then have "out_pages (fst (page_step w use_ocr dpi remove_blank sdoc st i)) =
      out_pages (fst st) @ []"
    by (cases st) (simp add: page_step_def process_page_def)
  then show ?thesis by (metis empty_iff list.set(1))
next
  case (Inr page)
  obtain x d1 info1 r1 where
    rb: "rebuild_page w use_ocr dpi i page (fst st) (snd st) = (x, d1, info1, r1)"
    by (metis prod_cases4)
  obtain y d2 info2 r2 where
    pb: "prune_blank remove_blank i page d1 info1 r1 = (y, d2, info2, r2)"
    by (metis prod_cases4)
  from rebuild_page_appends [OF rb] obtain ps where
    ps: "out_pages d1 = out_pages (fst st) @ ps" "\<forall>p \<in> set ps. origin p = i"
    by blast
  have "out_pages (fst (page_step w use_ocr dpi remove_blank sdoc st i)) = out_pages d1 \<or>
        out_pages (fst (page_step w use_ocr dpi remove_blank sdoc st i)) = butlast (out_pages d1)"
    using Inr rb pb prune_blank_last [OF pb]
    by (cases st; cases x; cases y) (auto simp: page_step_def process_page_def)
  with ps show ?thesis by metis
qed

lemma sorted_constant: "\<forall>p \<in> set ps. f p = (i::nat) \<Longrightarrow> sorted (map f ps)"
  by (induction ps) auto

lemma sorted_step:
  assumes "sorted (map origin xs)" and "\<forall>p \<in> set xs. origin p < i"
    and "\<forall>p \<in> set ps. origin p = i"
    and "ys = xs @ ps \<or> ys = butlast (xs @ ps)"
  shows "sorted (map origin ys) \<and> (\<forall>p \<in> set ys. origin p < Suc i)"
proof -
  have s: "sorted (map origin (xs @ ps))"
    using assms(1-3) sorted_constant [of ps origin i]
    by (auto simp: sorted_append intro: less_imp_le)
  have b: "\<forall>p \<in> set (xs @ ps). origin p < Suc i"
    using assms(2,3) by (auto simp: less_Suc_eq)
  show ?thesis
  proof (cases "ys = xs @ ps")
    case True
    with s b show ?thesis by simp
  next
    case False
    with assms(4) have y: "ys = butlast (xs @ ps)" by simp
    have "sorted (butlast (map origin (xs @ ps)))"
      using s by (cases "xs @ ps = []") (simp_all add: sorted_butlast)
    then have "sorted (map origin ys)" by (simp add: y map_butlast)
    moreover have "\<forall>p \<in> set ys. origin p < Suc i"
      using b y by (meson in_set_butlastD)
    ultimately show ?thesis by simp
  qed
qed

lemma foldl_page_step_sorted:
  "sorted (map origin (out_pages (fst (foldl (page_step w use_ocr dpi remove_blank sdoc)
      (empty_doc, rep) [0 ..< n])))) \<and>
   (\<forall>p \<in> set (out_pages (fst (foldl (page_step w use_ocr dpi remove_blank sdoc)
      (empty_doc, rep) [0 ..< n]))). origin p < n)"
proof (induction n)
  case 0
  show ?case by (simp add: empty_doc_def)
next
  case (Suc n)
  let ?st = "foldl (page_step w use_ocr dpi remove_blank sdoc) (empty_doc, rep) [0 ..< n]"
  obtain ps where ps: "\<forall>p \<in> set ps. origin p = n"
    "out_pages (fst (page_step w use_ocr dpi remove_blank sdoc ?st n)) = out_pages (fst ?st) @ ps \<or>
     out_pages (fst (page_step w use_ocr dpi remove_blank sdoc ?st n)) =
       butlast (out_pages (fst ?st) @ ps)"
    using page_step_pages by blast
  from sorted_step [OF _ _ ps] Suc.IH show ?case by simp
qed

subsection \<open>The report is append-only\<close>

lemma extends_refl [simp]: "extends r r"
  by (simp add: extends_def)

lemma extends_trans: "extends r r' \<Longrightarrow> extends r' r'' \<Longrightarrow> extends r r''"
  by (auto simp: extends_def)

lemma extends_add_action: "extends r r' \<Longrightarrow> extends r (add_action m r')"
  by (auto simp: extends_def add_action_def)

lemma extends_add_error: "extends r r' \<Longrightarrow> extends r (add_error m r')"
  by (auto simp: extends_def add_error_def)

lemma extends_add_page_entry: "extends r r' \<Longrightarrow> extends r (add_page_entry n e r')"
  by (auto simp: extends_def add_page_entry_def)

lemmas extends_add = extends_add_action extends_add_error extends_add_page_entry

lemma extends_action: "extends r r' \<Longrightarrow> m \<in> set (actions r) \<Longrightarrow> m \<in> set (actions r')"
  by (auto simp: extends_def prefix_def)

lemma extends_error: "extends r r' \<Longrightarrow> m \<in> set (errors r) \<Longrightarrow> m \<in> set (errors r')"
  by (auto simp: extends_def prefix_def)

lemma rebuild_page_extends:
  assumes "rebuild_page w use_ocr dpi i page new_doc rep = (x, new_doc1, page_info1, rep1)"
  shows "extends rep rep1"
  using assms
  by (auto simp: rebuild_page_def copy_page_def no_text_page_def ocr_page_def ocr_failed_def
      fallback_image_def fallback_failed_def image_page_def image_failed_def Let_def
      intro!: extends_add
      split: if_splits option.splits sum.splits)

lemma prune_blank_extends:
  assumes "prune_blank remove_blank i page new_doc page_info rep = (x, new_doc1, page_info1, rep1)"
  shows "extends rep rep1"
  using assms
  by (auto simp: prune_blank_def intro!: extends_add split: if_splits option.splits sum.splits)

lemma page_step_extends: "extends (snd st) (snd (page_step w use_ocr dpi remove_blank sdoc st i))"
proof (cases "src_pages sdoc ! i")
  case (Inl e)
  then show ?thesis
    by (cases st) (simp add: page_step_def process_page_def extends_add)
next
  case (Inr page)
  obtain x d1 info1 r1 where
    rb: "rebuild_page w use_ocr dpi i page (fst st) (snd st) = (x, d1, info1, r1)"
    by (metis prod_cases4)
  obtain y d2 info2 r2 where
    pb: "prune_blank remove_blank i page d1 info1 r1 = (y, d2, info2, r2)"
    by (metis prod_cases4)
  have e2: "extends (snd st) r1" "extends (snd st) r2"
    using rebuild_page_extends [OF rb] prune_blank_extends [OF pb] extends_trans by blast+
  show ?thesis
    using Inr rb pb e2
    by (cases st; cases x; cases y) (simp_all add: page_step_def process_page_def extends_add)
qed

lemma foldl_page_step_extends:
  "extends (snd st) (snd (foldl (page_step w use_ocr dpi remove_blank sdoc) st is))"
proof (induction "is" arbitrary: st)
  case Nil
  show ?case by simp
next
  case (Cons i "is")
  show ?case
    using page_step_extends [of st w use_ocr dpi remove_blank sdoc i] Cons.IH extends_trans
    by (metis foldl_Cons)
qed

lemma page_loop_extends:
  "extends rep (snd (page_loop w use_ocr dpi remove_blank sdoc (new_doc, rep)))"
  using foldl_page_step_extends [of "(new_doc, rep)"] by (simp add: page_loop_def)

lemma save_images_extends:
  "save_images out_dir i imgs st = (x, st1) \<Longrightarrow> extends (snd (snd st)) (snd (snd st1))"
proof (induction out_dir i imgs st arbitrary: x st1 rule: save_images.induct)
  case (1 out_dir i st)
  then show ?case by simp
next
  case (2 out_dir i img imgs saved img_index rep)
  show ?case
  proof (cases "extract_image img")
    case (Inl e)
    with "2.prems" show ?thesis by auto
  next
    case (Inr ext_opt)
    show ?thesis
    proof (cases "write_image img")
      case (Some e)
      with Inr "2.prems" show ?thesis by (auto simp: Let_def)
    next
      case None
      from "2.IH" [OF Inr refl refl None] "2.prems" Inr None
      have "extends (add_action (Extracted_image (out_dir, i + 1, img_index,
              case ext_opt of None \<Rightarrow> ''png'' | Some x \<Rightarrow> x)) rep) (snd (snd st1))"
        by (simp add: Let_def)
      then show ?thesis
        by (auto simp: extends_def add_action_def dest: append_prefixD)
    qed
  qed
qed

lemma extract_pages_extends:
  "extract_pages out_dir i ps st = (x, st1) \<Longrightarrow> extends (snd (snd st)) (snd (snd st1))"
proof (induction ps arbitrary: i st x st1)
  case Nil
  then show ?case by simp
next
  case (Cons p ps)
  show ?case
  proof (cases p)
    case (Inl e)
    with Cons.prems show ?thesis by auto
  next
    case (Inr page)
    show ?thesis
    proof (cases "get_images page")
      case (Inl e)
      with Inr Cons.prems show ?thesis by auto
    next
      case imgs: (Inr image_list)
      obtain y st2 where sv: "save_images out_dir i image_list st = (y, st2)"
        by (cases "save_images out_dir i image_list st")
      note e1 = save_images_extends [OF sv]
      show ?thesis
      proof (cases y)
        case (Some e)
        with Inr imgs sv Cons.prems e1 show ?thesis by auto
      next
        case None
        with Inr imgs sv Cons.prems have "extract_pages out_dir (i + 1) ps st2 = (x, st1)"
          by simp
        from Cons.IH [OF this] e1 show ?thesis by (rule extends_trans [rotated])
      qed
    qed
  qed
qed

lemma extract_images_from_doc_extends:
  "extends rep (snd (extract_images_from_doc w doc out_dir rep))"
proof (cases "mkdir_images w")
  case (Some e)
  then show ?thesis by (simp add: extract_images_from_doc_def)
next
  case None
  obtain x saved k r1 where ep: "extract_pages out_dir 0 (src_pages doc)
      ([], 0, add_action (Extracting_images out_dir) rep) = (x, saved, k, r1)"
    by (metis prod_cases4)
  from extract_pages_extends [OF ep]
  have "extends (add_action (Extracting_images out_dir) rep) r1"
    by simp
  then have "extends rep r1"
    by (auto simp: extends_def add_action_def dest: append_prefixD)
  with None ep show ?thesis
    by (cases x) (simp_all add: extract_images_from_doc_def extends_add)
qed

lemma merge_metadata_extends: "extends rep (snd (merge_metadata w p sdoc new_doc rep))"
  by (simp add: merge_metadata_def Let_def extends_add split: sum.split option.split)

lemma save_final_doc_extends: "extends rep (fst (snd (save_final_doc w p new_doc rep)))"
  by (simp add: save_final_doc_def extends_add split: option.split)

lemma build_repaired_pdf_extends:
  "extends (add_action (Opening_source input_pdf_path) rep)
     (fst (snd (build_repaired_pdf w input_pdf_path output_pdf_path use_ocr dpi extract_images
        out_images_dir remove_blank ocr_lang rep)))"
proof (cases "fitz_open w input_pdf_path")
  case (Inl e)
  then show ?thesis by (simp add: build_repaired_pdf_def)
next
  case (Inr sdoc)
  let ?r1 = "add_action (Opening_source input_pdf_path) rep"
  let ?r2 = "add_action (Source_has (length (src_pages sdoc))) ?r1"
  let ?r3 = "if extract_images then
               (case extract_images_from_doc w sdoc out_images_dir ?r2 of
                  (Inl e, r) \<Rightarrow> add_error (Image_extraction_failed e) r
                | (Inr saved, r) \<Rightarrow> r)
             else ?r2"
  let ?st = "page_loop w use_ocr dpi remove_blank sdoc (empty_doc, ?r3)"
  let ?md = "merge_metadata w input_pdf_path sdoc (fst ?st) (snd ?st)"
  have e2: "extends ?r1 ?r2" by (simp add: extends_add)
  have "extends ?r2 ?r3"
    using extract_images_from_doc_extends [of ?r2 w sdoc out_images_dir]
    by (cases "extract_images_from_doc w sdoc out_images_dir ?r2")
      (auto simp: extends_add split: sum.split)
  with e2 have e3: "extends ?r1 ?r3" by (rule extends_trans)
  have "extends ?r3 (snd ?st)" by (rule page_loop_extends)
  with e3 have e4: "extends ?r1 (snd ?st)" by (rule extends_trans)
  have "extends (snd ?st) (snd ?md)" by (rule merge_metadata_extends)
  with e4 have e5: "extends ?r1 (snd ?md)" by (rule extends_trans)
  have "extends (snd ?md) (fst (snd (save_final_doc w output_pdf_path (fst ?md) (snd ?md))))"
    by (rule save_final_doc_extends)
  with e5 have "extends ?r1 (fst (snd (save_final_doc w output_pdf_path (fst ?md) (snd ?md))))"
    by (rule extends_trans)
  with Inr show ?thesis by (simp add: build_repaired_pdf_def Let_def)
qed

lemma try_simple_repair_extends:
  "extends (add_action Attempting_resave rep) (snd (try_simple_repair w inp rep))"
  by (simp add: try_simple_repair_def Let_def extends_add split: sum.split option.split)

lemma resave_stage_extends:
  "extends (add_action Attempting_resave rep) (snd (resave_stage w inp rep))"
  using try_simple_repair_extends [of rep w inp]
  by (cases "try_simple_repair w inp rep") (auto simp: resave_stage_def extends_add split: sum.split)

lemma build_stage_extends:
  "extends (add_action (Opening_source working_input) rep)
     (fst (build_stage w a working_input out rep))"
proof -
  let ?dir = "case arg_extract_images a of
                None \<Rightarrow> None
              | Some d \<Rightarrow> if truthy d then Some d else None"
  let ?b = "build_repaired_pdf w working_input out (arg_ocr a) (arg_dpi a) (?dir \<noteq> None)
     (case ?dir of None \<Rightarrow> ''.'' | Some d \<Rightarrow> d) (arg_remove_blank a) (arg_ocr_lang a) rep"
  have "extends (add_action (Opening_source working_input) rep) (fst (snd ?b))"
    by (rule build_repaired_pdf_extends)
  then show ?thesis
    by (cases ?b; cases "fst ?b") (auto simp: build_stage_def Let_def extends_add)
qed

subsection \<open>Only the page loop accounts for pages\<close>

lemma tally_add_action [simp]: "tally (add_action m r) = tally r"
  by (simp add: tally_def processing_failures_def add_action_def)

lemma tally_add_error [simp]: "\<not> is_processing_failed m \<Longrightarrow> tally (add_error m r) = tally r"
  by (simp add: tally_def processing_failures_def add_error_def)

lemma tally_new_report [simp]: "tally (new_report inp) = 0"
  by (simp add: tally_def processing_failures_def new_report_def)

lemma save_images_tally:
  "save_images out_dir i imgs st = (x, st1) \<Longrightarrow> tally (snd (snd st1)) = tally (snd (snd st))"
proof (induction out_dir i imgs st arbitrary: x st1 rule: save_images.induct)
  case (1 out_dir i st)
  then show ?case by simp
next
  case (2 out_dir i img imgs saved img_index rep)
  show ?case
  proof (cases "extract_image img")
    case (Inl e)
    with "2.prems" show ?thesis by auto
  next
    case (Inr ext_opt)
    show ?thesis
    proof (cases "write_image img")
      case (Some e)
      with Inr "2.prems" show ?thesis by (auto simp: Let_def)
    next
      case None
      from "2.IH" [OF Inr refl refl None] "2.prems" Inr None
      show ?thesis by (simp add: Let_def)
    qed
  qed
qed

lemma extract_pages_tally:
  "extract_pages out_dir i ps st = (x, st1) \<Longrightarrow> tally (snd (snd st1)) = tally (snd (snd st))"
proof (induction ps arbitrary: i st x st1)
  case Nil
  then show ?case by simp
next
  case (Cons p ps)
  show ?case
  proof (cases p)
    case (Inl e)
    with Cons.prems show ?thesis by auto
  next
    case (Inr page)
    show ?thesis
    proof (cases "get_images page")
      case (Inl e)
      with Inr Cons.prems show ?thesis by auto
    next
      case imgs: (Inr image_list)
      obtain y st2 where sv: "save_images out_dir i image_list st = (y, st2)"
        by (cases "save_images out_dir i image_list st")
      note e1 = save_images_tally [OF sv]
      show ?thesis
      proof (cases y)
        case (Some e)
        with Inr imgs sv Cons.prems e1 show ?thesis by auto
      next
        case None
        with Inr imgs sv Cons.prems have "extract_pages out_dir (i + 1) ps st2 = (x, st1)"
          by simp
        from Cons.IH [OF this] e1 show ?thesis by simp
      qed
    qed
  qed
qed

lemma extract_images_from_doc_tally:
  "tally (snd (extract_images_from_doc w doc out_dir rep)) = tally rep"
proof (cases "mkdir_images w")
  case (Some e)
  then show ?thesis by (simp add: extract_images_from_doc_def)
next
  case None
  obtain x saved k r1 where ep: "extract_pages out_dir 0 (src_pages doc)
      ([], 0, add_action (Extracting_images out_dir) rep) = (x, saved, k, r1)"
    by (metis prod_cases4)
  from extract_pages_tally [OF ep] have "tally r1 = tally rep" by simp
  with None ep show ?thesis
    by (cases x) (simp_all add: extract_images_from_doc_def)
qed

lemma page_loop_tally:
  "tally (snd (page_loop w use_ocr dpi remove_blank sdoc (new_doc, rep))) =
     tally rep + length (src_pages sdoc)"
  using foldl_page_step_entries [of w use_ocr dpi remove_blank sdoc "(new_doc, rep)"
      "[0 ..< length (src_pages sdoc)]"]
  by (simp add: page_loop_def tally_def)

lemma merge_metadata_tally: "tally (snd (merge_metadata w p sdoc new_doc rep)) = tally rep"
  by (simp add: merge_metadata_def Let_def split: sum.split option.split)

lemma save_final_doc_tally: "tally (fst (snd (save_final_doc w p new_doc rep))) = tally rep"
  by (simp add: save_final_doc_def split: option.split)

lemma build_repaired_pdf_tally:
  assumes "fitz_open w input_pdf_path = Inr sdoc"
  shows "tally (fst (snd (build_repaired_pdf w input_pdf_path output_pdf_path use_ocr dpi
        extract_images out_images_dir remove_blank ocr_lang rep))) =
     tally rep + length (src_pages sdoc)"
proof -
  let ?r2 = "add_action (Source_has (length (src_pages sdoc)))
               (add_action (Opening_source input_pdf_path) rep)"
  let ?r3 = "if extract_images then
               (case extract_images_from_doc w sdoc out_images_dir ?r2 of
                  (Inl e, r) \<Rightarrow> add_error (Image_extraction_failed e) r
                | (Inr saved, r) \<Rightarrow> r)
             else ?r2"
  let ?st = "page_loop w use_ocr dpi remove_blank sdoc (empty_doc, ?r3)"
  let ?md = "merge_metadata w input_pdf_path sdoc (fst ?st) (snd ?st)"
  have t3: "tally ?r3 = tally rep"
    using extract_images_from_doc_tally [of w sdoc out_images_dir ?r2]
    by (cases "extract_images_from_doc w sdoc out_images_dir ?r2")
      (auto split: sum.split)
  have "tally (snd ?st) = tally ?r3 + length (src_pages sdoc)"
    by (rule page_loop_tally)
  with t3 have "tally (snd ?st) = tally rep + length (src_pages sdoc)"
    by simp
  then have "tally (fst (snd (save_final_doc w output_pdf_path (fst ?md) (snd ?md)))) =
      tally rep + length (src_pages sdoc)"
    by (simp only: save_final_doc_tally merge_metadata_tally)
  with assms show ?thesis
    by (simp add: build_repaired_pdf_def Let_def)
qed

lemma backup_stage_tally: "tally (backup_stage w inp rep) = tally rep"
  by (simp add: backup_stage_def backup_file_def split: sum.split option.split)

lemma resave_stage_tally: "tally (snd (resave_stage w inp rep)) = tally rep"
  by (simp add: resave_stage_def try_simple_repair_def Let_def split: sum.split option.split)

lemma build_stage_tally:
  assumes "fitz_open w working_input = Inr sdoc"
  shows "tally (fst (build_stage w a working_input out rep)) = tally rep + length (src_pages sdoc)"
proof -
  let ?dir = "case arg_extract_images a of
                None \<Rightarrow> None
              | Some d \<Rightarrow> if truthy d then Some d else None"
  let ?b = "build_repaired_pdf w working_input out (arg_ocr a) (arg_dpi a) (?dir \<noteq> None)
     (case ?dir of None \<Rightarrow> ''.'' | Some d \<Rightarrow> d) (arg_remove_blank a) (arg_ocr_lang a) rep"
  have "tally (fst (snd ?b)) = tally rep + length (src_pages sdoc)"
    using assms by (rule build_repaired_pdf_tally)
  then show ?thesis
    by (cases ?b; cases "fst ?b") (auto simp: build_stage_def Let_def)
qed

subsection \<open>Metadata resolution\<close>




section \<open>The claims\<close>

subsection \<open>C1: pruning and the order of the output pages\<close>

text \<open>
  C1, as amended.  With pruning enabled, the prune step after source page \<open>i\<close> looks at the
  last page of the output document and at nothing else, and removes at most that page.
  The last page is one appended during iteration \<open>i\<close> whenever that iteration appended a
  page.  Whatever is removed, the retained output pages stand in the order of their source
  indices.

  The four parts of the statement: the pages after the loop are sorted by source index;
  one iteration turns the pages into the old pages followed by pages of index \<open>i\<close>, with at
  most the last page of the whole removed; after an iteration that appended a page, the
  page loaded by \<^verbatim>\<open>new_doc[-1]\<close> has index \<open>i\<close>; the outcome of the prune step (the exception,
  the flag in \<open>page_info\<close>, the report) is the same on two documents with the same last page.
\<close>

theorem pruning_and_order:
  "sorted (map origin (out_pages (fst (page_loop w use_ocr dpi remove_blank sdoc (empty_doc, rep))))) \<and>
   (\<exists>ps. (\<forall>p \<in> set ps. origin p = i) \<and>
      (out_pages (fst (page_step w use_ocr dpi remove_blank sdoc st i)) = out_pages (fst st) @ ps \<or>
       out_pages (fst (page_step w use_ocr dpi remove_blank sdoc st i)) =
         butlast (out_pages (fst st) @ ps))) \<and>
   (rebuild_page w use_ocr dpi i page new_doc rep = (x, new_doc1, page_info1, rep1) \<and>
      out_pages new_doc1 \<noteq> out_pages new_doc \<longrightarrow>
      (\<exists>lp. last_page new_doc1 = Inr lp \<and> origin lp = i)) \<and>
   (last_page d = last_page d' \<longrightarrow>
      fst (prune_blank remove_blank i page d page_info rep) =
        fst (prune_blank remove_blank i page d' page_info rep) \<and>
      snd (snd (prune_blank remove_blank i page d page_info rep)) =
        snd (snd (prune_blank remove_blank i page d' page_info rep)))"
proof -
  have a: "sorted (map origin (out_pages (fst (page_loop w use_ocr dpi remove_blank sdoc
      (empty_doc, rep)))))"
    using foldl_page_step_sorted [of w use_ocr dpi remove_blank sdoc rep "length (src_pages sdoc)"]
    by (simp add: page_loop_def)
  have c: "\<exists>lp. last_page new_doc1 = Inr lp \<and> origin lp = i"
    if "rebuild_page w use_ocr dpi i page new_doc rep = (x, new_doc1, page_info1, rep1)"
      and "out_pages new_doc1 \<noteq> out_pages new_doc"
  proof -
    from rebuild_page_appends [OF that(1)] obtain ps where
      ps: "out_pages new_doc1 = out_pages new_doc @ ps" "\<forall>p \<in> set ps. origin p = i"
      by blast
    with that(2) have "ps \<noteq> []" by auto
    with ps show ?thesis by (simp add: last_page_def)
  qed
  from a page_step_pages c prune_blank_depends_on_last show ?thesis by blast
qed

text \<open>
  The scenario of the specification: "Hello", a blank scan whose OCR is blank too,
  "World"; OCR and pruning enabled.  The output keeps the pages of indices 0 and 2.
\<close>

theorem pruning_and_order_witness:
  "sorted (map origin (out_pages (fst (page_loop
      (sample_world (doc_of [text_page ''Hello'', scanned_page '''', text_page ''World'']))
      True 300 True (doc_of [text_page ''Hello'', scanned_page '''', text_page ''World''])
      (empty_doc, new_report ''in.pdf''))))) \<and>
   map origin (out_pages (fst (page_loop
      (sample_world (doc_of [text_page ''Hello'', scanned_page '''', text_page ''World'']))
      True 300 True (doc_of [text_page ''Hello'', scanned_page '''', text_page ''World''])
      (empty_doc, new_report ''in.pdf'')))) = [0, 2] \<and>
   (\<exists>lp. last_page (fst (snd (rebuild_page
      (sample_world (doc_of [text_page ''Hello'', scanned_page '''', text_page ''World'']))
      True 300 0 (text_page ''Hello'') empty_doc (new_report ''in.pdf'')))) = Inr lp \<and>
      origin lp = 0)"
proof -
  let ?D = "doc_of [text_page ''Hello'', scanned_page '''', text_page ''World'']"
  let ?r = "rebuild_page (sample_world ?D) True 300 0 (text_page ''Hello'') empty_doc
      (new_report ''in.pdf'')"
  have h: "?r = (fst ?r, fst (snd ?r), fst (snd (snd ?r)), snd (snd (snd ?r))) \<and>
      out_pages (fst (snd ?r)) \<noteq> out_pages empty_doc"
    by (simp add: page_defs sample_defs)
  have v: "map origin (out_pages (fst (page_loop (sample_world ?D) True 300 True ?D
      (empty_doc, new_report ''in.pdf'')))) = [0, 2]"
    by (simp add: page_defs sample_defs)
  from pruning_and_order [where w = "sample_world ?D" and use_ocr = True and dpi = 300
      and remove_blank = True and sdoc = ?D and rep = "new_report ''in.pdf''" and i = 0
      and page = "text_page ''Hello''" and new_doc = empty_doc and x = "fst ?r"
      and ?new_doc1.0 = "fst (snd ?r)" and ?page_info1.0 = "fst (snd (snd ?r))"
      and ?rep1.0 = "snd (snd (snd ?r))"] h v
  show ?thesis by blast
qed

text \<open>
  C1 as stated fails.  First run (OCR and pruning on): the OCR of page 0 inserts two
  blank pages, of which the prune step removes the last one; on page 1 both OCR and the
  image fallback fail, nothing is appended, and the prune step removes the page left by
  iteration 0, flagging page 2 as removed.  Second run (no OCR, pruning on): page 0 is copied, the image insertion
  for page 1 fails, and the prune step of iteration 1 loads the copy of page 0.
\<close>

theorem prune_earlier_page_counterexample:
  "map origin (out_pages (fst (page_step (sample_world (doc_of [two_blank_scan, failing_scan]))
       True 300 True (doc_of [two_blank_scan, failing_scan])
       (empty_doc, new_report ''in.pdf'') 0))) = [0] \<and>
   out_pages (fst (page_step (sample_world (doc_of [two_blank_scan, failing_scan])) True 300 True
       (doc_of [two_blank_scan, failing_scan])
       (page_step (sample_world (doc_of [two_blank_scan, failing_scan])) True 300 True
          (doc_of [two_blank_scan, failing_scan]) (empty_doc, new_report ''in.pdf'') 0) 1)) = [] \<and>
   map (\<lambda>x. (page_number x, removed_blank (entry x)))
     (pages (snd (page_step (sample_world (doc_of [two_blank_scan, failing_scan])) True 300 True
       (doc_of [two_blank_scan, failing_scan])
       (page_step (sample_world (doc_of [two_blank_scan, failing_scan])) True 300 True
          (doc_of [two_blank_scan, failing_scan]) (empty_doc, new_report ''in.pdf'') 0) 1))) =
     [(1, True), (2, True)] \<and>
   last_page (fst (snd (rebuild_page (sample_world (doc_of [text_page ''Hello'', failing_scan]))
       False 300 1 failing_scan
       (fst (page_step (sample_world (doc_of [text_page ''Hello'', failing_scan])) False 300 True
          (doc_of [text_page ''Hello'', failing_scan]) (empty_doc, new_report ''in.pdf'') 0))
       (snd (page_step (sample_world (doc_of [text_page ''Hello'', failing_scan])) False 300 True
          (doc_of [text_page ''Hello'', failing_scan]) (empty_doc, new_report ''in.pdf'') 0))))) =
     Inr \<lparr>origin = 0, content = Verbatim, page_text = Inr ''Hello''\<rparr>"
  by (simp add: page_defs sample_defs)

subsection \<open>C2: one page entry per source page\<close>




subsection \<open>C3: a page that has text is copied\<close>

text \<open>
  C3, as amended.  For every source page that loads, is classified as having text and whose
  copy into the new document does not raise: the page is appended verbatim to the output
  document (pruning, if enabled, keeps it), exactly one page entry is recorded for it, its
  decision is \<^verbatim>\<open>copied\<close>, and its character count is the length of the page's extracted
  text as extracted, leading and trailing whitespace included.
\<close>

theorem copied_page_outcome:
  assumes "src_pages sdoc ! i = Inr page" and "page_has_text page" and "insert_pdf page = None"
  shows "\<exists>t. get_text page = Inr t \<and>
     page_step w use_ocr dpi remove_blank sdoc (new_doc, rep) i =
       (append_pages new_doc [\<lparr>origin = i, content = Verbatim, page_text = Inr t\<rparr>],
        add_page_entry (i + 1)
          ((new_page_info i)\<lparr>action := Some ''copied'', text_chars := Some (length t)\<rparr>)
          (add_action (Page_copied (i + 1)) rep))"
proof -
  from assms(2) obtain t where t: "get_text page = Inr t" "strip t \<noteq> []"
    using page_has_text_Inr by blast
  have "page_step w use_ocr dpi remove_blank sdoc (new_doc, rep) i =
       (append_pages new_doc [\<lparr>origin = i, content = Verbatim, page_text = Inr t\<rparr>],
        add_page_entry (i + 1)
          ((new_page_info i)\<lparr>action := Some ''copied'', text_chars := Some (length t)\<rparr>)
          (add_action (Page_copied (i + 1)) rep))"
    using assms t
    by (simp add: page_step_def process_page_def rebuild_page_def copy_page_def prune_blank_def
        truthy_def Let_def)
  with t show ?thesis by blast
qed

text \<open>The first page of the specification's scenario: "Hello", recorded with 5 characters.\<close>

theorem copied_page_outcome_witness:
  "page_step (sample_world (doc_of [text_page ''Hello''])) True 300 True
     (doc_of [text_page ''Hello'']) (empty_doc, new_report ''in.pdf'') 0 =
   (append_pages empty_doc [\<lparr>origin = 0, content = Verbatim, page_text = Inr ''Hello''\<rparr>],
    add_page_entry 1 ((new_page_info 0)\<lparr>action := Some ''copied'', text_chars := Some 5\<rparr>)
      (add_action (Page_copied 1) (new_report ''in.pdf'')))"
proof -
  have h1: "src_pages (doc_of [text_page ''Hello'']) ! 0 = Inr (text_page ''Hello'')"
    by (simp add: doc_of_def)
  have h2: "page_has_text (text_page ''Hello'')"
    by (simp add: page_defs sample_defs)
  have h3: "insert_pdf (text_page ''Hello'') = None"
    by (simp add: text_page_def)
  from copied_page_outcome [OF h1 h2 h3, of "sample_world (doc_of [text_page ''Hello''])"
      True 300 True empty_doc "new_report ''in.pdf''"]
  show ?thesis by (simp add: text_page_def eval_nat_numeral)
qed

text \<open>
  C3 as stated fails.  The text "Hello" followed by a line feed has 6 characters, 5 after
  trimming; the page is recorded with 6.  And a page with text whose copy raises is not
  copied: the output document stays empty and no page entry is recorded.
\<close>

theorem copied_page_outcome_counterexample:
  "length (strip (''Hello'' @ [CHR 0x0A])) = 5 \<and>
   map (text_chars \<circ> entry) (pages (snd (page_step
      (sample_world (doc_of [text_page (''Hello'' @ [CHR 0x0A])])) False 300 False
      (doc_of [text_page (''Hello'' @ [CHR 0x0A])]) (empty_doc, new_report ''in.pdf'') 0))) =
     [Some 6] \<and>
   page_has_text ((text_page ''Hello'')\<lparr>insert_pdf := Some (Exception ''cannot copy'')\<rparr>) \<and>
   out_pages (fst (page_step
      (sample_world (doc_of [(text_page ''Hello'')\<lparr>insert_pdf := Some (Exception ''cannot copy'')\<rparr>]))
      False 300 False
      (doc_of [(text_page ''Hello'')\<lparr>insert_pdf := Some (Exception ''cannot copy'')\<rparr>])
      (empty_doc, new_report ''in.pdf'') 0)) = [] \<and>
   pages (snd (page_step
      (sample_world (doc_of [(text_page ''Hello'')\<lparr>insert_pdf := Some (Exception ''cannot copy'')\<rparr>]))
      False 300 False
      (doc_of [(text_page ''Hello'')\<lparr>insert_pdf := Some (Exception ''cannot copy'')\<rparr>])
      (empty_doc, new_report ''in.pdf'') 0)) = []"
  by (simp add: page_defs sample_defs)

subsection \<open>C4: the fallback after a failed OCR\<close>




subsection \<open>C5: the merged metadata\<close>




subsection \<open>C6: the page classifier\<close>

text \<open>
  C6.  The classifier returns true if and only if extracting the page's text returns a
  string that is non-empty after trimming whitespace, that is, one with a character that
  is not whitespace; when the extraction raises, it returns false, and no exception leaves
  it.
\<close>

theorem page_has_text_iff:
  "(page_has_text page \<longleftrightarrow> (\<exists>t. get_text page = Inr t \<and> strip t \<noteq> [])) \<and>
   (page_has_text page \<longleftrightarrow> (\<exists>t. get_text page = Inr t \<and> (\<exists>c \<in> set t. \<not> py_isspace c))) \<and>
   (\<forall>e. get_text page = Inl e \<longrightarrow> \<not> page_has_text page)"
  by (cases "get_text page") (auto simp: page_has_text_def truthy_def strip_Nil_iff)

theorem page_has_text_iff_witness:
  "page_has_text (text_page ''Hello'') \<and> \<not> page_has_text (text_page '' '') \<and>
   \<not> page_has_text (scanned_page ''Hello'') \<and>
   \<not> page_has_text ((text_page ''Hello'')\<lparr>get_text := Inl (Exception ''damaged'')\<rparr>)"
  using page_has_text_iff [of "text_page ''Hello''"] page_has_text_iff [of "text_page '' ''"]
    page_has_text_iff [of "scanned_page ''Hello''"]
    page_has_text_iff [of "(text_page ''Hello'')\<lparr>get_text := Inl (Exception ''damaged'')\<rparr>"]
  by (simp add: text_page_def scanned_page_def strip_def py_isspace_def)

subsection \<open>C7: a failed save of the output\<close>

text \<open>
  C7.  For every run that reaches the save of the output document (the input exists, the
  output and report paths are computed, the working input opens): if the save fails (in
  creating the parent directory or in the save itself), the error is recorded and raised
  out of the build, where \<^verbatim>\<open>main\<close> records it again as the failure of the run; no output
  document is written; \<^verbatim>\<open>main\<close> still returns, with the report flushed.  The report
  handed to the flush carries both errors, and whether the report file gets written
  depends on the report write alone.
\<close>

theorem save_failure_still_flushes:
  assumes ex: "path_exists w (arg_input a)"
    and out: "path_or (arg_output a)
        (with_name w (arg_input a)
           (path_stem w (arg_input a) @ ''.repaired'' @ path_suffix w (arg_input a))) = Inr out"
    and rp: "path_or (arg_report a) (with_suffix w (arg_input a) ''.repair_report.json'') =
        Inr report_path"
    and op: "fitz_open w
        (fst (resave_stage w (arg_input a)
           (backup_stage w (arg_input a) (new_report (arg_input a))))) = Inr sdoc"
    and sv: "mkdir_parent w = Some e \<or> (mkdir_parent w = None \<and> save_final w = Some e)"
  shows "status (main w a) = Returned \<and> output_file (main w a) = None \<and>
     (\<exists>r es. errors r = es @ [Failed_saving e, Overall_failed e] \<and>
        final_report (main w a) = Some (fst (snd (save w report_path r))) \<and>
        report_file (main w a) = snd (snd (save w report_path r)) \<and>
        report_file (main w a) = (case json_dump w of None \<Rightarrow> Some r | Some x \<Rightarrow> None))"
proof -
  let ?inp = "arg_input a"
  let ?ws = "resave_stage w ?inp (backup_stage w ?inp (new_report ?inp))"
  let ?dir = "case arg_extract_images a of
                None \<Rightarrow> None
              | Some d \<Rightarrow> if truthy d then Some d else None"
  let ?b = "build_repaired_pdf w (fst ?ws) out (arg_ocr a) (arg_dpi a) (?dir \<noteq> None)
     (case ?dir of None \<Rightarrow> ''.'' | Some d \<Rightarrow> d) (arg_remove_blank a) (arg_ocr_lang a) (snd ?ws)"
  have "\<exists>r. ?b = (Some e, add_error (Failed_saving e) r, None)"
    using op sv by (auto simp: build_repaired_pdf_def save_final_doc_def Let_def)
  then obtain r where b: "?b = (Some e, add_error (Failed_saving e) r, None)" ..
  let ?r3 = "add_error (Overall_failed e) (add_error (Failed_saving e) r)"
  have bs: "build_stage w a (fst ?ws) out (snd ?ws) = (?r3, None)"
    using b by (simp add: build_stage_def Let_def)
  have m: "main w a =
      \<lparr>status = Returned, final_report = Some (fst (snd (save w report_path ?r3))),
       report_file = snd (snd (save w report_path ?r3)), output_file = None\<rparr>"
    using ex out rp bs by (simp add: main_def repair_def Let_def)
  have "errors ?r3 = errors r @ [Failed_saving e, Overall_failed e]"
    by (simp add: add_error_def)
  moreover have "snd (snd (save w report_path ?r3)) =
      (case json_dump w of None \<Rightarrow> Some ?r3 | Some x \<Rightarrow> None)"
    by (simp add: save_def split: option.split)
  ultimately show ?thesis
    using m by (metis run.select_convs(1-4))
qed

text \<open>A one-page document whose final save fails because the disk is full.\<close>

theorem save_failure_still_flushes_witness:
  "status (main ((sample_world (doc_of [text_page ''Hello'']))
      \<lparr>save_final := Some (Exception ''disk full'')\<rparr>) sample_args) = Returned \<and>
   output_file (main ((sample_world (doc_of [text_page ''Hello'']))
      \<lparr>save_final := Some (Exception ''disk full'')\<rparr>) sample_args) = None \<and>
   (\<exists>r es. errors r =
        es @ [Failed_saving (Exception ''disk full''), Overall_failed (Exception ''disk full'')] \<and>
      report_file (main ((sample_world (doc_of [text_page ''Hello'']))
        \<lparr>save_final := Some (Exception ''disk full'')\<rparr>) sample_args) = Some r)"
proof -
  let ?w = "(sample_world (doc_of [text_page ''Hello'']))\<lparr>save_final := Some (Exception ''disk full'')\<rparr>"
  have h1: "path_exists ?w (arg_input sample_args)"
    by (simp add: sample_world_def)
  have h2: "path_or (arg_output sample_args)
      (with_name ?w (arg_input sample_args)
         (path_stem ?w (arg_input sample_args) @ ''.repaired'' @
          path_suffix ?w (arg_input sample_args))) = Inr ''in.repaired.pdf''"
    by (simp add: sample_world_def sample_args_def path_or_def)
  have h3: "path_or (arg_report sample_args)
      (with_suffix ?w (arg_input sample_args) ''.repair_report.json'') =
      Inr ''in.repair_report.json''"
    by (simp add: sample_world_def sample_args_def path_or_def)
  have h4: "fitz_open ?w
      (fst (resave_stage ?w (arg_input sample_args)
         (backup_stage ?w (arg_input sample_args) (new_report (arg_input sample_args))))) =
      Inr (doc_of [text_page ''Hello''])"
    by (simp add: sample_world_def)
  have h5: "mkdir_parent ?w = Some (Exception ''disk full'') \<or>
      (mkdir_parent ?w = None \<and> save_final ?w = Some (Exception ''disk full''))"
    by (simp add: sample_world_def)
  have h6: "json_dump ?w = None"
    by (simp add: sample_world_def)
  from save_failure_still_flushes [OF h1 h2 h3 h4 h5] h6
  show ?thesis by auto
qed

subsection \<open>C8: a prune check whose extraction raises\<close>

text \<open>
  C8.  For every prune check with pruning enabled: if extracting the text of the inspected
  page (the last page of the output document) raises, the check ends normally with the
  document, the page's outcome and the report unchanged; no page is deleted and no
  \<^verbatim>\<open>removed_blank\<close> flag is set.
\<close>

theorem prune_keeps_page_on_extraction_failure:
  "last_page new_doc = Inr lp \<Longrightarrow> page_text lp = Inl e \<Longrightarrow>
   prune_blank True i page new_doc page_info rep = (None, new_doc, page_info, rep)"
  by (simp add: prune_blank_def)

theorem prune_keeps_page_on_extraction_failure_witness:
  "prune_blank True 0 (scanned_page '''')
     (append_pages empty_doc
        [\<lparr>origin = 0, content = Searchable, page_text = Inl (Exception ''unreadable'')\<rparr>])
     (new_page_info 0) (new_report ''in.pdf'') =
   (None,
    append_pages empty_doc
      [\<lparr>origin = 0, content = Searchable, page_text = Inl (Exception ''unreadable'')\<rparr>],
    new_page_info 0, new_report ''in.pdf'') \<and>
   \<not> removed_blank (new_page_info 0)"
proof -
  let ?p = "\<lparr>origin = 0, content = Searchable, page_text = Inl (Exception ''unreadable'')\<rparr>"
  have h1: "last_page (append_pages empty_doc [?p]) = Inr ?p"
    by simp
  have h2: "page_text ?p = Inl (Exception ''unreadable'')"
    by simp
  from prune_keeps_page_on_extraction_failure [OF h1 h2]
  show ?thesis by (simp add: new_page_info_def)
qed

subsection \<open>C9: flushing the report\<close>

text \<open>
  C9.  For every report and every path, no exception leaves \<^verbatim>\<open>RepairReport.save\<close>; when the
  write raises, the report is left as it was (and nothing is recorded as written); and a
  run that got as far as the backup returns from \<^verbatim>\<open>main\<close> whatever the write does.
\<close>

theorem save_never_raises:
  "fst (save w p rep) = None \<and>
   (\<forall>e. json_dump w = Some e \<longrightarrow> save w p rep = (None, rep, None)) \<and>
   status (repair w a inp out p) = Returned"
  by (simp add: save_def repair_def Let_def split: option.split)

theorem save_never_raises_witness:
  "save ((sample_world (doc_of []))\<lparr>json_dump := Some (Exception ''disk full'')\<rparr>)
     ''in.repair_report.json'' (add_action Attempting_resave (new_report ''in.pdf'')) =
   (None, add_action Attempting_resave (new_report ''in.pdf''), None)"
proof -
  have h: "json_dump ((sample_world (doc_of []))\<lparr>json_dump := Some (Exception ''disk full'')\<rparr>) =
      Some (Exception ''disk full'')"
    by simp
  from save_never_raises [of "(sample_world (doc_of []))\<lparr>json_dump := Some (Exception ''disk full'')\<rparr>"
      "''in.repair_report.json''" "add_action Attempting_resave (new_report ''in.pdf'')"] h
  show ?thesis by blast
qed

subsection \<open>C10: a failed backup\<close>

text \<open>
  C10.  For every run that gets as far as the backup (the input exists, the output and
  report paths are computed): if the backup raises, \<^verbatim>\<open>main\<close> still returns; the
  report handed to the flush holds the "Backup failed" error, the action that starts the
  resave and the action that starts the build on the working input; when the working input
  opens, every source page is accounted for in it (by a page entry or a recorded page
  failure); and the report is flushed as in any other run.
\<close>

theorem backup_failure_not_fatal:
  assumes ex: "path_exists w (arg_input a)"
    and out: "path_or (arg_output a)
        (with_name w (arg_input a)
           (path_stem w (arg_input a) @ ''.repaired'' @ path_suffix w (arg_input a))) = Inr out"
    and rp: "path_or (arg_report a) (with_suffix w (arg_input a) ''.repair_report.json'') =
        Inr report_path"
    and bf: "fst (backup_file w (arg_input a) (new_report (arg_input a))) = Inl e"
  shows "status (main w a) = Returned \<and>
     (\<exists>r working_input.
        Backup_failed e \<in> set (errors r) \<and> Attempting_resave \<in> set (actions r) \<and>
        Opening_source working_input \<in> set (actions r) \<and>
        (\<forall>sdoc. fitz_open w working_input = Inr sdoc \<longrightarrow> tally r = length (src_pages sdoc)) \<and>
        final_report (main w a) = Some (fst (snd (save w report_path r))) \<and>
        report_file (main w a) = (case json_dump w of None \<Rightarrow> Some r | Some x \<Rightarrow> None))"
proof -
  let ?inp = "arg_input a"
  let ?r1 = "backup_stage w ?inp (new_report ?inp)"
  let ?ws = "resave_stage w ?inp ?r1"
  let ?bs = "build_stage w a (fst ?ws) out (snd ?ws)"
  have m: "main w a =
      \<lparr>status = Returned, final_report = Some (fst (snd (save w report_path (fst ?bs)))),
       report_file = snd (snd (save w report_path (fst ?bs))), output_file = snd ?bs\<rparr>"
    using ex out rp by (simp add: main_def repair_def Let_def)
  have "backup_file w ?inp (new_report ?inp) = (Inl e, new_report ?inp)"
    using bf by (auto simp: backup_file_def split: sum.splits option.splits)
  then have r1: "Backup_failed e \<in> set (errors ?r1)"
    by (simp add: backup_stage_def add_error_def)
  have e12: "extends (add_action Attempting_resave ?r1) (snd ?ws)"
    by (rule resave_stage_extends)
  have e23: "extends (add_action (Opening_source (fst ?ws)) (snd ?ws)) (fst ?bs)"
    by (rule build_stage_extends)
  have a2: "Attempting_resave \<in> set (actions (snd ?ws))"
    using extends_action [OF e12] by (simp add: add_action_def)
  have b2: "Backup_failed e \<in> set (errors (snd ?ws))"
    using extends_error [OF e12] r1 by (simp add: add_action_def)
  have a3: "Attempting_resave \<in> set (actions (fst ?bs))"
    using extends_action [OF e23] a2 by (simp add: add_action_def)
  have b3: "Backup_failed e \<in> set (errors (fst ?bs))"
    using extends_error [OF e23] b2 by (simp add: add_action_def)
  have o3: "Opening_source (fst ?ws) \<in> set (actions (fst ?bs))"
    using extends_action [OF e23] by (simp add: add_action_def)
  have t3: "\<forall>sdoc. fitz_open w (fst ?ws) = Inr sdoc \<longrightarrow> tally (fst ?bs) = length (src_pages sdoc)"
    by (simp add: build_stage_tally resave_stage_tally backup_stage_tally)
  have "snd (snd (save w report_path (fst ?bs))) =
      (case json_dump w of None \<Rightarrow> Some (fst ?bs) | Some x \<Rightarrow> None)"
    by (simp add: save_def split: option.split)
  with m a3 b3 o3 t3 show ?thesis
    by (metis run.select_convs(1-3))
qed

text \<open>A one-page document in a directory where the backup copy cannot be written.\<close>

theorem backup_failure_not_fatal_witness:
  "status (main ((sample_world (doc_of [text_page ''Hello'']))
      \<lparr>copy2 := Some (Exception ''permission denied'')\<rparr>) sample_args) = Returned \<and>
   (\<exists>r. Backup_failed (Exception ''permission denied'') \<in> set (errors r) \<and> tally r = 1 \<and>
      report_file (main ((sample_world (doc_of [text_page ''Hello'']))
        \<lparr>copy2 := Some (Exception ''permission denied'')\<rparr>) sample_args) = Some r)"
proof -
  let ?w = "(sample_world (doc_of [text_page ''Hello'']))\<lparr>copy2 := Some (Exception ''permission denied'')\<rparr>"
  have h1: "path_exists ?w (arg_input sample_args)"
    by (simp add: sample_world_def)
  have h2: "path_or (arg_output sample_args)
      (with_name ?w (arg_input sample_args)
         (path_stem ?w (arg_input sample_args) @ ''.repaired'' @
          path_suffix ?w (arg_input sample_args))) = Inr ''in.repaired.pdf''"
    by (simp add: sample_world_def sample_args_def path_or_def)
  have h3: "path_or (arg_report sample_args)
      (with_suffix ?w (arg_input sample_args) ''.repair_report.json'') =
      Inr ''in.repair_report.json''"
    by (simp add: sample_world_def sample_args_def path_or_def)
  have h4: "fst (backup_file ?w (arg_input sample_args) (new_report (arg_input sample_args))) =
      Inl (Exception ''permission denied'')"
    by (simp add: sample_world_def backup_file_def)
  have h5: "json_dump ?w = None" "\<And>p. fitz_open ?w p = Inr (doc_of [text_page ''Hello''])"
    "length (src_pages (doc_of [text_page ''Hello''])) = 1"
    by (simp_all add: sample_world_def doc_of_def)
  from backup_failure_not_fatal [OF h1 h2 h3 h4] h5
  show ?thesis by auto
qed

end
